theory Spec2Isabelle
  imports Main "HOL-Library.Sublist"
begin

section \<open>Strings\<close>

text \<open>
  A Python \<open>str\<close> is a sequence of Unicode code points: it is modelled as a list of
  natural numbers, one per code point.  ASCII literals of the source are written
  \<open>asc ''...''\<close>, every other literal by its code points.
\<close>

type_synonym ustr = "nat list"

abbreviation asc :: "string \<Rightarrow> ustr" where
  "asc s \<equiv> map of_char s"

text \<open>The characters \<open>str.strip()\<close> removes and \<open>\s\<close> matches (Py_UNICODE_ISSPACE).\<close>

definition is_space :: "nat \<Rightarrow> bool" where
  "is_space c =
     ((9 \<le> c \<and> c \<le> 13) \<or> (28 \<le> c \<and> c \<le> 32) \<or> c = 0x85 \<or> c = 0xA0 \<or> c = 0x1680
      \<or> (0x2000 \<le> c \<and> c \<le> 0x200A) \<or> c = 0x2028 \<or> c = 0x2029 \<or> c = 0x202F
      \<or> c = 0x205F \<or> c = 0x3000)"

definition strip :: "ustr \<Rightarrow> ustr" where
  "strip s = rev (dropWhile is_space (rev (dropWhile is_space s)))"

text \<open>\<open>s.rstrip(chars)\<close>\<close>

definition rstrip_chars :: "ustr \<Rightarrow> ustr \<Rightarrow> ustr" where
  "rstrip_chars cs s = rev (dropWhile (\<lambda>c. c \<in> set cs) (rev s))"

text \<open>\<open>s.split('\n')\<close>: always at least one piece.\<close>

fun split_nl :: "ustr \<Rightarrow> ustr list" where
  "split_nl [] = [[]]"
| "split_nl (c # cs) =
     (if c = 10 then [] # split_nl cs
      else (case split_nl cs of [] \<Rightarrow> [[c]] | l # ls \<Rightarrow> (c # l) # ls))"

text \<open>\<open>sep.join(parts)\<close>\<close>

fun join :: "ustr \<Rightarrow> ustr list \<Rightarrow> ustr" where
  "join sep [] = []"
| "join sep [p] = p"
| "join sep (p # q # ps) = p @ sep @ join sep (q # ps)"

text \<open>
  \<open>s.count(old)\<close>, \<open>s.replace(old, new)\<close> and \<open>s.replace(old, new, 1)\<close> for a non-empty
  \<open>old\<close> (the program only searches for the marker): occurrences are taken from the left
  and do not overlap.
\<close>

function count_occ :: "ustr \<Rightarrow> ustr \<Rightarrow> nat" where
  "count_occ old s =
     (if old \<noteq> [] \<and> prefix old s then Suc (count_occ old (drop (length old) s))
      else (case s of [] \<Rightarrow> 0 | c # cs \<Rightarrow> count_occ old cs))"
  by pat_completeness auto
termination
  by (relation "measure (\<lambda>(old, s). length s)") (auto simp: prefix_def)

declare count_occ.simps [simp del]

function replace_all :: "ustr \<Rightarrow> ustr \<Rightarrow> ustr \<Rightarrow> ustr" where
  "replace_all old new s =
     (if old \<noteq> [] \<and> prefix old s then new @ replace_all old new (drop (length old) s)
      else (case s of [] \<Rightarrow> [] | c # cs \<Rightarrow> c # replace_all old new cs))"
  by pat_completeness auto
termination
  by (relation "measure (\<lambda>(old, new, s). length s)") (auto simp: prefix_def)

declare replace_all.simps [simp del]

fun replace_first :: "ustr \<Rightarrow> ustr \<Rightarrow> ustr \<Rightarrow> ustr" where
  "replace_first old new [] = []"
| "replace_first old new (c # cs) =
     (if old \<noteq> [] \<and> prefix old (c # cs) then new @ drop (length old) (c # cs)
      else c # replace_first old new cs)"

text \<open>\<open>xs[i]\<close> for \<open>i \<ge> 0\<close>: \<open>None\<close> is Python's IndexError.\<close>

definition idx :: "'a list \<Rightarrow> nat \<Rightarrow> 'a option" where
  "idx xs i = (if i < length xs then Some (xs ! i) else None)"

text \<open>\<open>c.upper()\<close>, applied by the program to one character matched by \<open>[A-Za-z]\<close>.\<close>

definition upper :: "ustr \<Rightarrow> ustr" where
  "upper s = map (\<lambda>c. if 97 \<le> c \<and> c \<le> 122 then c - 32 else c) s"

section \<open>Regular expressions\<close>

text \<open>
  The fragment of Python's \<open>re\<close> the program uses.  A character class is a list of
  items; quantifiers stand on single-character atoms only, as in all the patterns of
  the program.
\<close>

datatype citem = Ch nat | Rng nat nat | Ws

datatype atom = Lit nat | Dot | Cls "citem list" | NCls "citem list"

datatype regex =
    Eps
  | Atom atom
  | Seq regex regex
  | Alt regex regex
  | Star atom
  | Lazy atom
  | Group nat regex
  | Look regex
  | Bol
  | Eol

fun in_item :: "citem \<Rightarrow> nat \<Rightarrow> bool" where
  "in_item (Ch a) c = (c = a)"
| "in_item (Rng lo hi) c = (lo \<le> c \<and> c \<le> hi)"
| "in_item Ws c = is_space c"

fun accepts :: "atom \<Rightarrow> nat \<Rightarrow> bool" where
  "accepts (Lit a) c = (c = a)"
| "accepts Dot c = (c \<noteq> 10)"
| "accepts (Cls its) c = list_ex (\<lambda>i. in_item i c) its"
| "accepts (NCls its) c = (\<not> list_ex (\<lambda>i. in_item i c) its)"

text \<open>Derived forms: \<open>a+\<close>, \<open>a+?\<close>, \<open>r?\<close>, a literal word, an alternation of several.\<close>

definition Plus :: "atom \<Rightarrow> regex" where
  "Plus a = Seq (Atom a) (Star a)"

definition LazyPlus :: "atom \<Rightarrow> regex" where
  "LazyPlus a = Seq (Atom a) (Lazy a)"

definition Opt :: "regex \<Rightarrow> regex" where
  "Opt r = Alt r Eps"

fun word :: "ustr \<Rightarrow> regex" where
  "word [] = Eps"
| "word [c] = Atom (Lit c)"
| "word (c # d # cs) = Seq (Atom (Lit c)) (word (d # cs))"

fun seqs :: "regex list \<Rightarrow> regex" where
  "seqs [] = Eps"
| "seqs [r] = r"
| "seqs (r # q # rs) = Seq r (seqs (q # rs))"

fun alts :: "regex list \<Rightarrow> regex" where
  "alts [] = Eps"
| "alts [r] = r"
| "alts (r # q # rs) = Alt r (alts (q # rs))"

text \<open>
  The backtracking matcher.  The work still to do is a stack of frames: a regex to
  match, or the end of group \<open>n\<close> opened where the input was \<open>s0\<close>.  Alternatives are
  tried in Python's order (left branch first, a greedy star the longest first, a lazy
  one the shortest first) and the first complete match is the result: the rest of the
  input and the groups, latest first.  The flag says whether the position is the
  start of the string.
\<close>

datatype frame = R regex | Close nat ustr

type_synonym caps = "(nat \<times> ustr) list"

fun rsize :: "regex \<Rightarrow> nat" where
  "rsize (Seq r q) = Suc (rsize r + rsize q)"
| "rsize (Alt r q) = Suc (rsize r + rsize q)"
| "rsize (Group n r) = Suc (Suc (rsize r))"
| "rsize (Look r) = Suc (rsize r)"
| "rsize r = 1"

fun fsize :: "frame \<Rightarrow> nat" where
  "fsize (R r) = rsize r"
| "fsize (Close n s0) = 1"

function run :: "frame list \<Rightarrow> bool \<Rightarrow> ustr \<Rightarrow> caps \<Rightarrow> (ustr \<times> caps) option" where
  "run [] b s g = Some (s, g)"
| "run (Close n s0 # k) b s g = run k b s ((n, take (length s0 - length s) s0) # g)"
| "run (R Eps # k) b s g = run k b s g"
| "run (R (Atom a) # k) b s g =
     (case s of [] \<Rightarrow> None | c # cs \<Rightarrow> if accepts a c then run k False cs g else None)"
| "run (R (Seq r q) # k) b s g = run (R r # R q # k) b s g"
| "run (R (Alt r q) # k) b s g =
     (case run (R r # k) b s g of Some x \<Rightarrow> Some x | None \<Rightarrow> run (R q # k) b s g)"
| "run (R (Star a) # k) b s g =
     (case s of [] \<Rightarrow> run k b s g
      | c # cs \<Rightarrow>
          if accepts a c
          then (case run (R (Star a) # k) False cs g of Some x \<Rightarrow> Some x | None \<Rightarrow> run k b s g)
          else run k b s g)"
| "run (R (Lazy a) # k) b s g =
     (case run k b s g of Some x \<Rightarrow> Some x
      | None \<Rightarrow>
          (case s of [] \<Rightarrow> None
           | c # cs \<Rightarrow> if accepts a c then run (R (Lazy a) # k) False cs g else None))"
| "run (R (Group n r) # k) b s g = run (R r # Close n s # k) b s g"
| "run (R (Look r) # k) b s g =
     (case run [R r] b s g of None \<Rightarrow> None | Some (rest, g') \<Rightarrow> run k b s g')"
| "run (R Bol # k) b s g = (if b then run k b s g else None)"
| "run (R Eol # k) b s g = (if s = [] \<or> s = [10] then run k b s g else None)"
  by pat_completeness auto
termination
  by (relation "measures [\<lambda>(k, b, s, g). length s, \<lambda>(k, b, s, g). sum_list (map fsize k)]") auto

text \<open>Group \<open>n\<close> of a match (the empty string when the group took no part).\<close>

definition grp :: "nat \<Rightarrow> caps \<Rightarrow> ustr" where
  "grp n g = (case map_of g n of None \<Rightarrow> [] | Some v \<Rightarrow> v)"

text \<open>A replacement: text and group references; a replacement function of the source
  that concatenates groups and text is the same thing.\<close>

datatype tpart = Txt ustr | Grp nat

fun expand :: "tpart list \<Rightarrow> caps \<Rightarrow> ustr" where
  "expand [] g = []"
| "expand (Txt t # ps) g = t @ expand ps g"
| "expand (Grp n # ps) g = grp n g @ expand ps g"

text \<open>
  \<open>re.sub(p, t, s)\<close>: the leftmost match at or after each position, replaced; the scan
  goes on after the match.  Every pattern of the program takes at least one character,
  so the case of an empty match (the replacement is put in and the scan moves one
  character on) never arises in it.
\<close>

function sub_from :: "regex \<Rightarrow> tpart list \<Rightarrow> bool \<Rightarrow> ustr \<Rightarrow> ustr" where
  "sub_from p t b s =
     (case run [R p] b s [] of
        None \<Rightarrow> (case s of [] \<Rightarrow> [] | c # cs \<Rightarrow> c # sub_from p t False cs)
      | Some (rest, g) \<Rightarrow>
          if length rest < length s then expand t g @ sub_from p t False rest
          else expand t g @ (case s of [] \<Rightarrow> [] | c # cs \<Rightarrow> c # sub_from p t False cs))"
  by pat_completeness auto
termination
  by (relation "measure (\<lambda>(p, t, b, s). length s)") auto

declare sub_from.simps [simp del]

definition re_sub :: "regex \<Rightarrow> tpart list \<Rightarrow> ustr \<Rightarrow> ustr" where
  "re_sub p t s = sub_from p t True s"

text \<open>\<open>re.findall(p, s)\<close>: the groups of the successive matches.\<close>

function findall_from :: "regex \<Rightarrow> bool \<Rightarrow> ustr \<Rightarrow> caps list" where
  "findall_from p b s =
     (case run [R p] b s [] of
        None \<Rightarrow> (case s of [] \<Rightarrow> [] | c # cs \<Rightarrow> findall_from p False cs)
      | Some (rest, g) \<Rightarrow>
          if length rest < length s then g # findall_from p False rest
          else g # (case s of [] \<Rightarrow> [] | c # cs \<Rightarrow> findall_from p False cs))"
  by pat_completeness auto
termination
  by (relation "measure (\<lambda>(p, b, s). length s)") auto

declare findall_from.simps [simp del]

definition re_findall :: "regex \<Rightarrow> ustr \<Rightarrow> caps list" where
  "re_findall p s = findall_from p True s"

text \<open>\<open>re.match(p, s)\<close>: a match at the start of the string.\<close>

definition re_match :: "regex \<Rightarrow> ustr \<Rightarrow> caps option" where
  "re_match p s = map_option snd (run [R p] True s [])"

section \<open>The rule tables\<close>

text \<open>The canonical marker \<open>{{BLANK}}\<close>.\<close>

definition BLANK :: ustr where
  "BLANK = asc ''{{BLANK}}''"

definition ws :: atom where
  "ws = Cls [Ws]"

text \<open>
  \<open>BLANK_PATTERNS\<close>, in the order of the source: empty brackets of four kinds
  (U+FF08 U+FF09, ASCII parentheses, U+3010 U+3011, square brackets), two or more
  underscores (ASCII, U+FF3F), and a bracketed \<open>A B a b\<close>, circled one or two
  (U+2460, U+2461), or digit \<open>1 2\<close>.
\<close>

definition BLANK_PATTERNS :: "regex list" where
  "BLANK_PATTERNS =
     [seqs [Atom (Lit 0xFF08), Star ws, Atom (Lit 0xFF09)],
      seqs [Atom (Lit 40), Star ws, Atom (Lit 41)],
      seqs [Atom (Lit 0x3010), Star ws, Atom (Lit 0x3011)],
      seqs [Atom (Lit 91), Star ws, Atom (Lit 93)],
      seqs [Atom (Lit 95), Atom (Lit 95), Star (Lit 95)],
      seqs [Atom (Lit 0xFF3F), Atom (Lit 0xFF3F), Star (Lit 0xFF3F)],
      seqs [Atom (Cls [Ch 0xFF08, Ch 40]), Star ws, Atom (Cls [Ch 65, Ch 66, Ch 97, Ch 98]), Star ws,
            Atom (Cls [Ch 0xFF09, Ch 41])],
      seqs [Atom (Lit 0xFF08), Star ws, Atom (Cls [Ch 0x2460, Ch 0x2461]), Star ws, Atom (Lit 0xFF09)],
      seqs [Atom (Lit 40), Star ws, Atom (Cls [Ch 0x2460, Ch 0x2461]), Star ws, Atom (Lit 41)],
      seqs [Atom (Lit 0xFF08), Star ws, Atom (Cls [Ch 49, Ch 50]), Star ws, Atom (Lit 0xFF09)],
      seqs [Atom (Lit 40), Star ws, Atom (Cls [Ch 49, Ch 50]), Star ws, Atom (Lit 41)]]"

text \<open>\<open>DESU_MASU_PATTERNS\<close>: polite endings and their plain forms (hiragana words).\<close>

definition DESU_MASU_PATTERNS :: "(ustr \<times> ustr) list" where
  "DESU_MASU_PATTERNS =
     [([0x3067, 0x3057, 0x3087, 0x3046, 0x304B], [0x3067, 0x3042, 0x308D, 0x3046, 0x304B]),
      ([0x307E, 0x3057, 0x3087, 0x3046], [0x3088, 0x3046]),
      ([0x307E, 0x305B, 0x3093], [0x306A, 0x3044]),
      ([0x307E, 0x3057, 0x305F], [0x305F]),
      ([0x3066, 0x3044, 0x307E, 0x3059], [0x3066, 0x3044, 0x308B]),
      ([0x3066, 0x304D, 0x307E, 0x3059], [0x3066, 0x304F, 0x308B]),
      ([0x3066, 0x304A, 0x308A, 0x307E, 0x3059], [0x3066, 0x3044, 0x308B]),
      ([0x3055, 0x308C, 0x3066, 0x3044, 0x307E, 0x3059], [0x3055, 0x308C, 0x3066, 0x3044, 0x308B]),
      ([0x306A, 0x3063, 0x3066, 0x3044, 0x307E, 0x3059], [0x306A, 0x3063, 0x3066, 0x3044, 0x308B]),
      ([0x3044, 0x307E, 0x3059], [0x3044, 0x308B]),
      ([0x3042, 0x308A, 0x307E, 0x3059], [0x3042, 0x308B]),
      ([0x304D, 0x307E, 0x3059], [0x304F, 0x308B]),
      ([0x3057, 0x307E, 0x3059], [0x3059, 0x308B]),
      ([0x3067, 0x3059, 0x304C], [0x3067, 0x3042, 0x308B, 0x304C]),
      ([0x3067, 0x3059, 0x306E, 0x3067], [0x3067, 0x3042, 0x308B, 0x306E, 0x3067]),
      ([0x3067, 0x3059, 0x304B, 0x3089], [0x3067, 0x3042, 0x308B, 0x304B, 0x3089]),
      ([0x3067, 0x3059], [0x3067, 0x3042, 0x308B]),
      ([0x307E, 0x3059], [0x308B])]"

text \<open>
  \<open>QUESTION_END_PATTERNS\<close>: each word is followed in the pattern by an optional
  \<open>[U+3002 U+FF1F ?]\<close> and replaced by \<open>NANIKA\<close> (ha-na-ni-ka and the full stop U+3002).
  The first word is ha, U+4F55 (nani), de-shi-yo-u-ka.
\<close>

definition QUESTION_END_WORDS :: "ustr list" where
  "QUESTION_END_WORDS =
     [[0x306F, 0x4F55, 0x3067, 0x3057, 0x3087, 0x3046, 0x304B],
      [0x306F, 0x4F55, 0x3067, 0x3059, 0x304B],
      [0x306F, 0x4F55, 0x3067, 0x3042, 0x308D, 0x3046, 0x304B],
      [0x306F, 0x4F55, 0x3067, 0x3042, 0x308B, 0x304B],
      [0x306F, 0x4F55, 0x304B],
      [0x306F, 0x306A, 0x3093, 0x3067, 0x3057, 0x3087, 0x3046, 0x304B],
      [0x306F, 0x306A, 0x3093, 0x3067, 0x3059, 0x304B],
      [0x306F, 0x306A, 0x3093, 0x3067, 0x3042, 0x308D, 0x3046, 0x304B],
      [0x306F, 0x306A, 0x3093, 0x3067, 0x3042, 0x308B, 0x304B],
      [0x306F, 0x306A, 0x3093, 0x304B]]"

definition NANIKA :: ustr where
  "NANIKA = [0x306F, 0x306A, 0x306B, 0x304B, 0x3002]"

definition question_end_pattern :: "ustr \<Rightarrow> regex" where
  "question_end_pattern w = Seq (word w) (Opt (Atom (Cls [Ch 0x3002, Ch 0xFF1F, Ch 63])))"

section \<open>Blank detection\<close>

text \<open>\<open>jp_char\<close>: hiragana, katakana, CJK ideographs.\<close>

definition jp_items :: "citem list" where
  "jp_items = [Rng 0x3040 0x309F, Rng 0x30A0 0x30FF, Rng 0x4E00 0x9FFF]"

text \<open>\<open>exclude_suffixes\<close>: the 29 suffix words, from U+578B (kata, type) to
  U+67D3 U+8272 U+4F53 (chromosome).\<close>

definition exclude_suffixes :: "ustr list" where
  "exclude_suffixes =
     [[0x578B], [0x7FA4], [0x7D30, 0x80DE], [0x6297, 0x539F], [0x53D7, 0x5BB9, 0x4F53],
      [0x30EA, 0x30F3, 0x30D1, 0x7403], [0x30A6, 0x30A4, 0x30EB, 0x30B9], [0x907A, 0x4F1D, 0x5B50],
      [0x30BF, 0x30F3, 0x30D1, 0x30AF], [0x86CB, 0x767D], [0x56E0, 0x5B50], [0x9396], [0x5EA7],
      [0x9818, 0x57DF], [0x30C9, 0x30E1, 0x30A4, 0x30F3], [0x30AF, 0x30E9, 0x30B9], [0x30B5, 0x30D6],
      [0x6CE2], [0x7DDA], [0x5C64], [0x5E2F], [0x7BA1], [0x70B9], [0x9762], [0x8EF8], [0x7AEF],
      [0x76F8], [0x671F], [0x67D3, 0x8272, 0x4F53]]"

text \<open>
  \<open>exclude_letters_before_cell\<close> is a Python set: the loops over it run in an order
  the interpreter fixes.  That order is the parameter \<open>ls\<close> of the functions below;
  this is the set's content.
\<close>

definition exclude_letters_before_cell :: "ustr list" where
  "exclude_letters_before_cell = [asc ''T'', asc ''B'', asc ''K'', asc ''NK'']"

text \<open>The four words after a protected letter: cell, lymphocyte, antigen, receptor.\<close>

definition protect_pattern :: "ustr \<Rightarrow> regex" where
  "protect_pattern letter =
     Seq (word letter)
       (Group 1 (alts [word [0x7D30, 0x80DE], word [0x30EA, 0x30F3, 0x30D1, 0x7403],
                       word [0x6297, 0x539F], word [0x53D7, 0x5BB9, 0x4F53]]))"

definition protect_repl :: "ustr \<Rightarrow> tpart list" where
  "protect_repl letter = [Txt (asc ''__PROTECT_'' @ letter @ asc ''_''), Grp 1, Txt (asc ''__'')]"

definition tech_pattern :: regex where
  "tech_pattern =
     seqs [Group 1 (Atom (Cls jp_items)), Group 2 (Atom (Cls [Rng 65 90])),
           Group 3 (alts (map word exclude_suffixes))]"

definition tech_repl :: "tpart list" where
  "tech_repl = [Grp 1, Txt (asc ''__TECH_''), Grp 2, Txt (asc ''__''), Grp 3]"

text \<open>\<open>before_chars\<close> adds U+3001, the comma, to, ya, U+30FB to \<open>jp_char\<close>;
  \<open>after_chars\<close> adds na and do to those.\<close>

definition before_chars :: atom where
  "before_chars = Cls (jp_items @ [Ch 0x3001, Ch 44, Ch 0x3068, Ch 0x3084, Ch 0x30FB])"

definition after_chars :: atom where
  "after_chars =
     Cls (jp_items @ [Ch 0x3001, Ch 44, Ch 0x3068, Ch 0x3084, Ch 0x30FB, Ch 0x306A, Ch 0x3069])"

definition standalone_pattern :: regex where
  "standalone_pattern =
     seqs [Group 1 (Atom before_chars), Group 2 (Atom (Cls [Rng 65 90])), Group 3 (Atom after_chars)]"

definition replace_standalone :: "tpart list" where
  "replace_standalone = [Grp 1, Txt BLANK, Grp 3]"

text \<open>
  The \<open>while prev_result != result\<close> loop: one pass, then again as long as the pass
  changed the text.  \<open>None\<close> is a loop that never ends.
\<close>

partial_function (option) standalone_loop :: "ustr \<Rightarrow> ustr option" where
  "standalone_loop result =
     (if re_sub standalone_pattern replace_standalone result = result
      then Some (re_sub standalone_pattern replace_standalone result)
      else standalone_loop (re_sub standalone_pattern replace_standalone result))"

declare standalone_loop.simps [code]

definition restore_tech :: "ustr \<Rightarrow> ustr" where
  "restore_tech s =
     re_sub (seqs [word (asc ''__TECH_''), Group 1 (Atom (Cls [Rng 65 90])), word (asc ''__'')])
       [Grp 1] s"

definition restore_pattern :: "ustr \<Rightarrow> regex" where
  "restore_pattern letter =
     seqs [word (asc ''__PROTECT_'' @ letter @ asc ''_''), Group 1 (LazyPlus Dot), word (asc ''__'')]"

definition restore_protect :: "ustr list \<Rightarrow> ustr \<Rightarrow> ustr" where
  "restore_protect ls s = fold (\<lambda>letter r. re_sub (restore_pattern letter) [Txt letter, Grp 1] r) ls s"

definition normalize_standalone_letters :: "ustr list \<Rightarrow> ustr \<Rightarrow> ustr option" where
  "normalize_standalone_letters ls text =
     (case standalone_loop
             (re_sub tech_pattern tech_repl
                (fold (\<lambda>letter r. re_sub (protect_pattern letter) (protect_repl letter) r) ls text)) of
        None \<Rightarrow> None
      | Some result \<Rightarrow> Some (restore_protect ls (restore_protect ls (restore_tech result))))"

definition normalize_blanks :: "ustr list \<Rightarrow> ustr \<Rightarrow> ustr option" where
  "normalize_blanks ls text =
     normalize_standalone_letters ls (fold (\<lambda>p r. re_sub p [Txt BLANK] r) BLANK_PATTERNS text)"

section \<open>Register conversion and cleanup\<close>

definition convert_desu_masu :: "ustr \<Rightarrow> ustr" where
  "convert_desu_masu text =
     fold (\<lambda>(w, r) res. re_sub (word w) [Txt r] res) DESU_MASU_PATTERNS
       (fold (\<lambda>w res. re_sub (question_end_pattern w) [Txt NANIKA] res) QUESTION_END_WORDS text)"

text \<open>
  \<open>clean_text\<close>, one line of the source per step: bold, italics, the four comma rules
  (the third pattern is a comma and \<open>.\<close>, any character but a newline), runs of
  blanks, of commas (U+3001, U+FF0C) and of full stops (U+3002, U+FF0E), \<open>strip\<close>, and
  blank lines.
\<close>

definition clean_text :: "ustr \<Rightarrow> ustr" where
  "clean_text text =
     re_sub (seqs [Atom (Lit 10), Star ws, Atom (Lit 10)]) [Txt [10]]
      (strip
        (re_sub (Plus (Cls [Ch 0x3002, Ch 0xFF0E])) [Txt [0x3002]]
          (re_sub (Plus (Cls [Ch 0x3001, Ch 0xFF0C])) [Txt [0x3001]]
            (re_sub (Plus (Cls [Ch 32, Ch 0x3000])) [Txt [32]]
              (re_sub (word [44, 0x3001]) [Txt [0x3001]]
                (re_sub (Seq (Atom (Lit 44)) (Atom Dot)) [Txt [46]]
                  (re_sub (word [0x3001, 0x3002]) [Txt [0x3002]]
                    (re_sub (word [44, 0x3002]) [Txt [0x3002]]
                      (re_sub (seqs [Atom (Lit 42), Group 1 (LazyPlus Dot), Atom (Lit 42)]) [Grp 1]
                        (re_sub (seqs [word [42, 42], Group 1 (LazyPlus Dot), word [42, 42]]) [Grp 1]
                           text))))))))))"

section \<open>Rendering the blanks\<close>

definition labels :: ustr where
  "labels = asc ''ABCDEFGHIJKLMNOPQRSTUVWXYZ''"

text \<open>The unlabelled blank: five ideographic spaces U+3000 in U+FF08 U+FF09; the
  labelled one: the label between two and two.\<close>

definition wide_blank :: ustr where
  "wide_blank = [0xFF08, 0x3000, 0x3000, 0x3000, 0x3000, 0x3000, 0xFF09]"

definition labeled_blank :: "nat \<Rightarrow> ustr" where
  "labeled_blank l = [0xFF08, 0x3000, 0x3000, l, 0x3000, 0x3000, 0xFF09]"

definition label_step :: "nat \<Rightarrow> ustr option \<Rightarrow> ustr option" where
  "label_step i acc =
     (case acc of
        None \<Rightarrow> None
      | Some result \<Rightarrow>
          if i < length labels
          then (case idx labels i of
                  None \<Rightarrow> None
                | Some l \<Rightarrow> Some (replace_first BLANK (labeled_blank l) result))
          else Some result)"

definition format_blanks :: "ustr \<Rightarrow> nat \<Rightarrow> ustr option" where
  "format_blanks text blank_count =
     (if blank_count = 0 then Some text
      else if blank_count = 1 then Some (replace_all BLANK wide_blank text)
      else fold label_step [0..<blank_count] (Some text))"

section \<open>The answer formatter\<close>

text \<open>\<open>str(n)\<close> for \<open>n \<ge> 0\<close>.\<close>

fun dec :: "nat \<Rightarrow> ustr" where
  "dec n = (if n < 10 then [48 + n] else dec (n div 10) @ [48 + n mod 10])"

declare dec.simps [simp del]

text \<open>\<open>d.get(key, default)\<close> on a dictionary given by its items.\<close>

definition dict_get :: "(ustr \<times> ustr) list \<Rightarrow> ustr \<Rightarrow> ustr \<Rightarrow> ustr" where
  "dict_get d key dflt = (case map_of d key of None \<Rightarrow> dflt | Some v \<Rightarrow> v)"

text \<open>The circled numbers one to twenty are U+2460 to U+2473, in this order.\<close>

definition circled_to_alpha :: "(ustr \<times> ustr) list" where
  "circled_to_alpha =
     [([0x2460], asc ''A''), ([0x2461], asc ''B''), ([0x2462], asc ''C''), ([0x2463], asc ''D''),
      ([0x2464], asc ''E''), ([0x2465], asc ''F''), ([0x2466], asc ''G''), ([0x2467], asc ''H''),
      ([0x2468], asc ''I''), ([0x2469], asc ''J''), ([0x246A], asc ''K''), ([0x246B], asc ''L''),
      ([0x246C], asc ''M''), ([0x246D], asc ''N''), ([0x246E], asc ''O''), ([0x246F], asc ''P''),
      ([0x2470], asc ''Q''), ([0x2471], asc ''R''), ([0x2472], asc ''S''), ([0x2473], asc ''T'')]"

text \<open>\<open>{str(i): labels[i-1] for i in range(1, 27)}\<close>\<close>

definition num_to_alpha :: "(ustr \<times> ustr) list" where
  "num_to_alpha = map (\<lambda>i. (dec i, [labels ! (i - 1)])) [1..<27]"

definition circled :: atom where
  "circled = Cls [Rng 0x2460 0x2473]"

definition letter :: atom where
  "letter = Cls [Rng 65 90, Rng 97 122]"

text \<open>The separator \<open>[. : U+FF0E U+FF1A tab]\<close> after a letter label on a single line.\<close>

definition label_sep :: atom where
  "label_sep = Cls [Ch 46, Ch 0xFF0E, Ch 58, Ch 0xFF1A, Ch 9]"

text \<open>\<open>^seikai[: U+FF1A]\s*\<close>, the answer marker already there (seikai is U+6B63 U+89E3).\<close>

definition answer_prefix :: regex where
  "answer_prefix = seqs [Bol, word [0x6B63, 0x89E3], Atom (Cls [Ch 0xFF1A, Ch 58]), Star ws]"

definition SEIKAI :: ustr where
  "SEIKAI = [0x6B63, 0x89E3, 0xFF1A]"

text \<open>The patterns of the line-by-line branch.\<close>

definition circled_line :: regex where
  "circled_line =
     seqs [Bol, Group 1 (Atom circled), Star (Cls [Ch 46, Ws, Ch 58, Ch 0xFF1A, Ch 9]),
           Group 2 (Plus Dot), Eol]"

definition num_line :: regex where
  "num_line =
     seqs [Bol, Group 1 (Plus (Cls [Rng 48 57])),
           Star (Cls [Ch 46, Ws, Ch 58, Ch 0xFF1A, Ch 9, Ch 41, Ch 0xFF09]), Group 2 (Plus Dot), Eol]"

definition letter_line :: regex where
  "letter_line =
     seqs [Bol, Group 1 (Atom letter), Plus (Cls [Ch 46, Ws, Ch 58, Ch 0xFF1A, Ch 9]),
           Group 2 (Plus Dot), Eol]"

text \<open>The patterns of the single-line branch.\<close>

definition pattern_circled :: regex where
  "pattern_circled =
     seqs [Group 1 (Atom circled), Star (Cls [Ch 46, Ws, Ch 58, Ch 0xFF1A]),
           Group 2 (LazyPlus (NCls [Rng 0x2460 0x2473])),
           Look (Alt (Seq (Star ws) (Atom circled)) Eol)]"

definition pattern_comma :: regex where
  "pattern_comma =
     seqs [Group 1 (Atom letter), Atom label_sep, Star ws, Group 2 (LazyPlus Dot),
           Look (Alt (seqs [Star ws, Atom (Cls [Ch 44, Ch 0x3001]), Star ws, Atom letter, Atom label_sep])
                     Eol)]"

definition pattern_space :: regex where
  "pattern_space =
     seqs [Group 1 (Atom letter), Atom label_sep, Star ws,
           Group 2 (LazyPlus (NCls [Rng 65 90, Rng 97 122])),
           Look (Alt (seqs [Star ws, Atom letter, Atom label_sep]) Eol)]"

text \<open>
  \<open>re.sub(p, protect_brackets, s)\<close>: the replacement function appends the matched text to
  \<open>bracket_contents\<close> and returns \<open>__BRACKET_i__\<close> for its index \<open>i\<close>.  The result is the
  new text and the list.
\<close>

function protect_from :: "regex \<Rightarrow> bool \<Rightarrow> ustr \<Rightarrow> ustr list \<Rightarrow> ustr \<times> ustr list" where
  "protect_from p b s bc =
     (case run [R p] b s [] of
        None \<Rightarrow>
          (case s of [] \<Rightarrow> ([], bc)
           | c # cs \<Rightarrow> (case protect_from p False cs bc of (r, bc') \<Rightarrow> (c # r, bc')))
      | Some (rest, g) \<Rightarrow>
          if length rest < length s
          then (case protect_from p False rest (bc @ [take (length s - length rest) s]) of
                  (r, bc') \<Rightarrow> (asc ''__BRACKET_'' @ dec (length bc) @ asc ''__'' @ r, bc'))
          else (case s of [] \<Rightarrow> (asc ''__BRACKET_'' @ dec (length bc) @ asc ''__'', bc @ [[]])
                | c # cs \<Rightarrow>
                    (case protect_from p False cs (bc @ [[]]) of
                       (r, bc') \<Rightarrow> (asc ''__BRACKET_'' @ dec (length bc) @ asc ''__'' @ c # r, bc'))))"
  by pat_completeness auto
termination
  by (relation "measure (\<lambda>(p, b, s, bc). length s)") auto

declare protect_from.simps [simp del]

definition protect_brackets :: "ustr \<Rightarrow> ustr \<times> ustr list" where
  "protect_brackets answer =
     (case protect_from (seqs [Atom (Lit 40), Star (NCls [Ch 41]), Atom (Lit 41)]) True answer [] of
        (p1, bc1) \<Rightarrow>
          protect_from (seqs [Atom (Lit 0xFF08), Star (NCls [Ch 0xFF09]), Atom (Lit 0xFF09)]) True p1 bc1)"

definition restore_brackets :: "ustr list \<Rightarrow> ustr \<Rightarrow> ustr" where
  "restore_brackets bc v =
     fold (\<lambda>(i, content) r. replace_all (asc ''__BRACKET_'' @ dec i @ asc ''__'') content r)
       (enumerate 0 bc) v"

text \<open>One line of the line-by-line branch; \<open>parts\<close> is the list built so far.\<close>

definition parse_line :: "ustr list \<Rightarrow> ustr \<Rightarrow> ustr list option" where
  "parse_line parts line =
     (if line = [] then Some parts
      else case re_match circled_line line of
        Some g \<Rightarrow>
          Some (parts @ [dict_get circled_to_alpha (grp 1 g) (asc ''A'') @ asc ''. '' @ strip (grp 2 g)])
      | None \<Rightarrow>
         (case re_match num_line line of
            Some g \<Rightarrow>
              (case (if length parts < length labels then idx labels (length parts) else Some 65) of
                 None \<Rightarrow> None
               | Some d \<Rightarrow>
                   Some (parts @ [dict_get num_to_alpha (grp 1 g) [d] @ asc ''. '' @ strip (grp 2 g)]))
          | None \<Rightarrow>
             (case re_match letter_line line of
                Some g \<Rightarrow> Some (parts @ [upper (grp 1 g) @ asc ''. '' @ strip (grp 2 g)])
              | None \<Rightarrow>
                  if length parts < length labels
                  then (case idx labels (length parts) of
                          None \<Rightarrow> None
                        | Some l \<Rightarrow> Some (parts @ [[l] @ asc ''. '' @ line]))
                  else Some parts)))"

definition parse_lines :: "ustr list \<Rightarrow> ustr list option" where
  "parse_lines lines =
     fold (\<lambda>line acc. case acc of None \<Rightarrow> None | Some parts \<Rightarrow> parse_line parts (strip line))
       lines (Some [])"

text \<open>The single-line branch: the parts when one of the three notations is found.\<close>

definition parse_single :: "ustr \<Rightarrow> ustr list" where
  "parse_single answer =
     (if re_findall pattern_circled answer \<noteq> []
      then map (\<lambda>g. dict_get circled_to_alpha (grp 1 g) (asc ''A'') @ asc ''. ''
                       @ rstrip_chars [44, 0x3001] (strip (grp 2 g)))
             (re_findall pattern_circled answer)
      else if re_findall pattern_comma answer \<noteq> []
      then map (\<lambda>g. upper (grp 1 g) @ asc ''. '' @ rstrip_chars [44, 0x3001] (strip (grp 2 g)))
             (re_findall pattern_comma answer)
      else (case protect_brackets answer of
              (protected, bc) \<Rightarrow>
                map (\<lambda>g. upper (grp 1 g) @ asc ''. '' @ restore_brackets bc (strip (grp 2 g)))
                  (re_findall pattern_space protected)))"

definition format_answer :: "ustr \<Rightarrow> nat \<Rightarrow> ustr option" where
  "format_answer answer0 blank_count =
     (if blank_count = 0 then Some (SEIKAI @ strip answer0)
      else if blank_count = 1 then Some (SEIKAI @ re_sub answer_prefix [] (strip answer0))
      else
        (case (if 2 \<le> length (split_nl (strip (re_sub answer_prefix [] (strip answer0))))
               then parse_lines (split_nl (strip (re_sub answer_prefix [] (strip answer0))))
               else Some (parse_single (re_sub answer_prefix [] (strip answer0)))) of
           None \<Rightarrow> None
         | Some parts \<Rightarrow>
             if parts \<noteq> [] then Some (SEIKAI @ join [0x3000, 0x3000] parts)
             else Some (SEIKAI @ re_sub answer_prefix [] (strip answer0))))"

section \<open>The pipeline\<close>

record formatted =
  question :: ustr
  answer :: ustr
  blank_count :: int

text \<open>The instruction line put before a question with blanks, with its newline.\<close>

definition instruction :: ustr where
  "instruction =
     [0x4EE5, 0x4E0B, 0x306E, 0x8A18, 0x8FF0, 0x306E, 0x7A7A, 0x6B04, 0x306B, 0x9069, 0x5207, 0x306A,
      0x8A9E, 0x53E5, 0x3092, 0x8A18, 0x5165, 0x305B, 0x3088, 0x3002, 10]"

text \<open>
  \<open>format_question\<close>; \<open>ls\<close> is the order in which the interpreter goes through
  \<open>exclude_letters_before_cell\<close>.  \<open>None\<close>: the call does not return normally.
\<close>

definition format_question :: "ustr list \<Rightarrow> ustr \<Rightarrow> ustr \<Rightarrow> formatted option" where
  "format_question ls question_text answer_text =
     (case normalize_blanks ls question_text of
        None \<Rightarrow> None
      | Some normalized \<Rightarrow>
         (case format_blanks (clean_text (convert_desu_masu normalized)) (count_occ BLANK normalized) of
            None \<Rightarrow> None
          | Some fmt \<Rightarrow>
             (case format_answer answer_text (count_occ BLANK normalized) of
                None \<Rightarrow> None
              | Some formatted_answer \<Rightarrow>
                  Some \<lparr>question = (if 0 < count_occ BLANK normalized then instruction @ fmt else fmt),
                        answer = formatted_answer,
                        blank_count = int (count_occ BLANK normalized)\<rparr>)))"

section \<open>Texts as segments between markers\<close>

text \<open>A text holds no marker when \<open>count_occ\<close>, the model of \<open>str.count\<close>, finds none.\<close>

definition marker_free :: "ustr \<Rightarrow> bool" where
  "marker_free u = (count_occ BLANK u = 0)"

text \<open>
  \<open>split_marker\<close> cuts a text at its markers, read from the left and without overlap, as
  \<open>text.split('{{BLANK}}')\<close> does.  \<open>fill k i segs\<close> puts the segments together again, with
  the labelled blanks of the letters \<open>65 + i\<close>, \<open>65 + i + 1\<close>, ... in the first \<open>k\<close> gaps and the
  marker itself in every later gap.
\<close>

fun fill :: "nat \<Rightarrow> nat \<Rightarrow> ustr list \<Rightarrow> ustr" where
  "fill k i [] = []"
| "fill k i [u] = u"
| "fill k i (u # v # us) =
     u @ (if k = 0 then BLANK else labeled_blank (65 + i)) @ fill (k - 1) (Suc i) (v # us)"

function split_marker :: "ustr \<Rightarrow> ustr list" where
  "split_marker s =
     (if prefix BLANK s then [] # split_marker (drop (length BLANK) s)
      else (case s of [] \<Rightarrow> [[]]
            | c # cs \<Rightarrow> (case split_marker cs of [] \<Rightarrow> [[c]] | u # us \<Rightarrow> (c # u) # us)))"
  by pat_completeness auto
termination
  by (relation "measure length") (auto simp: prefix_def BLANK_def)

declare split_marker.simps [simp del]

section \<open>One pass of the standalone-letter scan\<close>

text \<open>
  What one \<open>re.sub\<close> of the loop does, written without the matcher: where a character of
  \<open>before_chars\<close>, an uppercase letter and a character of \<open>after_chars\<close> follow each other
  the letter becomes the marker and the scan goes on behind the third character.
  \<open>rescan_weight\<close> counts the uppercase letters that stand before a character of
  \<open>after_chars\<close>.
\<close>

definition up :: "nat \<Rightarrow> bool" where
  "up l = (65 \<le> l \<and> l \<le> 90)"

fun standalone_pass :: "ustr \<Rightarrow> ustr" where
  "standalone_pass (x # l # a # rest) =
     (if accepts before_chars x \<and> up l \<and> accepts after_chars a
      then x # BLANK @ a # standalone_pass rest
      else x # standalone_pass (l # a # rest))"
| "standalone_pass [x, l] = [x, l]"
| "standalone_pass [x] = [x]"
| "standalone_pass [] = []"

fun rescan_weight :: "ustr \<Rightarrow> nat" where
  "rescan_weight (c # d # s) = (if up c \<and> accepts after_chars d then 1 else 0) + rescan_weight (d # s)"
| "rescan_weight [c] = 0"
| "rescan_weight [] = 0"

section \<open>Evaluation\<close>

text \<open>The definitions unfolded when the program is run on a concrete input.\<close>

lemmas re_defs = re_sub_def re_findall_def re_match_def grp_def LazyPlus_def Plus_def Opt_def ws_def
  is_space_def sub_from.simps findall_from.simps protect_from.simps count_occ.simps replace_all.simps
  dec.simps

lemmas blank_defs = normalize_blanks_def normalize_standalone_letters_def BLANK_PATTERNS_def BLANK_def
  tech_pattern_def tech_repl_def jp_items_def exclude_suffixes_def exclude_letters_before_cell_def
  protect_pattern_def protect_repl_def standalone_pattern_def replace_standalone_def before_chars_def
  after_chars_def restore_tech_def restore_pattern_def restore_protect_def standalone_loop.simps

lemmas answer_defs = format_answer_def SEIKAI_def answer_prefix_def strip_def parse_single_def
  parse_lines_def parse_line_def pattern_circled_def pattern_comma_def pattern_space_def circled_def
  letter_def label_sep_def circled_to_alpha_def dict_get_def rstrip_chars_def upper_def
  protect_brackets_def restore_brackets_def circled_line_def num_line_def letter_line_def labels_def
  idx_def

lemmas pipeline_defs = format_question_def convert_desu_masu_def DESU_MASU_PATTERNS_def
  QUESTION_END_WORDS_def NANIKA_def question_end_pattern_def clean_text_def format_blanks_def
  label_step_def wide_blank_def labeled_blank_def instruction_def

section \<open>The answer of the third example\<close>

text \<open>
  C7.  The answer text circled-one sekkekkyuu, a space, circled-two hakkekkyuu
  (U+2460 U+8D64 U+8840 U+7403, U+2461 U+767D U+8840 U+7403) with two blanks is
  formatted as the answer marker, \<open>A. \<close> and the first value, two ideographic spaces,
  \<open>B. \<close> and the second value.
\<close>

theorem C7_example_circled_answer:
  "format_answer [0x2460, 0x8D64, 0x8840, 0x7403, 0x20, 0x2461, 0x767D, 0x8840, 0x7403] 2 =
     Some ([0x6B63, 0x89E3, 0xFF1A] @ asc ''A. '' @ [0x8D64, 0x8840, 0x7403] @ [0x3000, 0x3000]
           @ asc ''B. '' @ [0x767D, 0x8840, 0x7403])"
  by (simp add: re_defs answer_defs)

section \<open>Inputs on which the code leaves the specification\<close>

text \<open>
  C1 (the code at a failing input).  The question U+8D64, a comma, an empty pair of
  full-width brackets, to, and a second empty pair has two blanks and \<open>blank_count\<close> is
  2; \<open>clean_text\<close> rewrites the comma and the character after it, the first brace of the
  first marker, to a full stop, so that one marker is left and the formatted question
  has the single labelled blank A, at the place of the second blank.
\<close>

theorem C1_comma_before_blank:
  "map_option (\<lambda>r. (question r, blank_count r))
     (format_question exclude_letters_before_cell
        [0x8D64, 0x2C, 0xFF08, 0x3000, 0xFF09, 0x3068, 0xFF08, 0x3000, 0xFF09] []) =
   Some (instruction @ [0x8D64] @ asc ''.{BLANK}}'' @ [0x3068] @ labeled_blank 65, 2)"
  by (simp add: re_defs blank_defs answer_defs pipeline_defs)

text \<open>
  C2 (counterexample).  On the question \<open>{{*BLANK*}}\<close> blank normalization finds no
  marker and \<open>blank_count\<close> is 0, but \<open>clean_text\<close> strips the asterisks as emphasis
  markup and the text the blank formatter receives holds one marker.
\<close>

theorem C2_cleanup_creates_marker:
  "map_option blank_count (format_question exclude_letters_before_cell (asc ''{{*BLANK*}}'') []) = Some 0
   \<and> normalize_blanks exclude_letters_before_cell (asc ''{{*BLANK*}}'') = Some (asc ''{{*BLANK*}}'')
   \<and> count_occ BLANK (clean_text (convert_desu_masu (asc ''{{*BLANK*}}''))) = 1"
  by (simp add: re_defs blank_defs answer_defs pipeline_defs)

text \<open>
  C4 (the code at a failing input).  In ketsuekigata-ha-O-gata, U+3001, A-gata the
  letter A stands right before the protected suffix U+578B (gata, type) and after the
  comma U+3001; the comma is no \<open>jp_char\<close>, so the term is not protected, and the
  standalone-letter pass turns the A into a marker.
\<close>

theorem C4_term_after_comma_converted:
  "normalize_blanks exclude_letters_before_cell
     [0x8840, 0x6DB2, 0x578B, 0x306F, 0x4F, 0x578B, 0x3001, 0x41, 0x578B] =
   Some ([0x8840, 0x6DB2, 0x578B, 0x306F, 0x4F, 0x578B, 0x3001] @ asc ''{{BLANK}}'' @ [0x578B])"
  by (simp add: re_defs blank_defs)

text \<open>
  C5 (counterexample).  The two entries \<open>1. foo\<close> and \<open>2. bar\<close> on one line, labelled
  by digits, are not recognised: the answer comes back as it is after the marker.
\<close>

theorem C5_single_line_digits_unparsed:
  "format_answer (asc ''1. foo 2. bar'') 2 = Some (SEIKAI @ asc ''1. foo 2. bar'')"
  by (simp add: re_defs answer_defs)

text \<open>
  C8 (counterexample).  The question kore-ha, an empty pair of brackets, de-a-ru and
  the answer \<open>X\<close> are formatted with one blank; formatting the result again finds the
  blank again and puts a second instruction line before the question.
\<close>

theorem C8_second_run_adds_instruction:
  "format_question exclude_letters_before_cell
     [0x3053, 0x308C, 0x306F, 0xFF08, 0x3000, 0xFF09, 0x3067, 0x3042, 0x308B, 0x3002] (asc ''X'') =
     Some \<lparr>question = instruction @ [0x3053, 0x308C, 0x306F] @ wide_blank @ [0x3067, 0x3042, 0x308B, 0x3002],
           answer = SEIKAI @ asc ''X'', blank_count = 1\<rparr>
   \<and> format_question exclude_letters_before_cell
       (instruction @ [0x3053, 0x308C, 0x306F] @ wide_blank @ [0x3067, 0x3042, 0x308B, 0x3002])
       (SEIKAI @ asc ''X'') =
     Some \<lparr>question = instruction @ instruction @ [0x3053, 0x308C, 0x306F] @ wide_blank
                        @ [0x3067, 0x3042, 0x308B, 0x3002],
           answer = SEIKAI @ asc ''X'', blank_count = 1\<rparr>"
  by (simp add: re_defs blank_defs answer_defs pipeline_defs)

section \<open>The blank formatter beyond twenty-six blanks\<close>

lemma BLANK_unfold: "BLANK = [123, 123, 66, 76, 65, 78, 75, 125, 125]"
  by (simp add: BLANK_def)

lemma marker_free_Nil: "marker_free []"
  by (simp add: marker_free_def count_occ.simps BLANK_unfold)

lemma marker_free_Cons: "marker_free (x # u) = (\<not> prefix BLANK (x # u) \<and> marker_free u)"
  unfolding marker_free_def by (subst count_occ.simps) (simp add: BLANK_unfold)

lemma rf_skip_char:
  "marker_free u \<Longrightarrow> c \<notin> set BLANK \<Longrightarrow>
   replace_first BLANK new (u @ c # rest) = u @ c # replace_first BLANK new rest"
proof (induction u)
  case Nil
  then have "\<not> prefix BLANK (c # rest)" by (auto simp: BLANK_unfold)
  then show ?case by simp
next
  case (Cons x u)
  have "\<not> prefix BLANK ((x # u) @ c # rest)"
  proof
    assume "prefix BLANK ((x # u) @ c # rest)"
    then have "prefix BLANK (x # u) \<or> (\<exists>us. BLANK = (x # u) @ us \<and> prefix us (c # rest))"
      using prefix_append[of BLANK "x # u" "c # rest"] by blast
    then consider "prefix BLANK (x # u)" | us where "BLANK = (x # u) @ us" "prefix us (c # rest)"
      by blast
    then show False
    proof cases
      case 1 with Cons.prems show False by (simp add: marker_free_Cons)
    next
      case 2
      show False
      proof (cases us)
        case Nil
        with 2 have "prefix BLANK (x # u)" by simp
        with Cons.prems(1) show False unfolding marker_free_Cons by blast
      next
        case (Cons d ds)
        with 2 have "d = c" by simp
        moreover from 2 Cons have "set BLANK = set ((x # u) @ d # ds)" by simp
        then have "d \<in> set BLANK" by simp
        ultimately show False using Cons.prems(2) by simp
      qed
    qed
  qed
  with Cons show ?case by (simp add: marker_free_Cons)
qed

lemma no_border: "BLANK = v @ us \<Longrightarrow> v \<noteq> [] \<Longrightarrow> us \<noteq> [] \<Longrightarrow> \<not> prefix us (BLANK @ rest)"
  by (auto simp: BLANK_unfold Cons_eq_append_conv)

lemma rf_hit:
  "marker_free u \<Longrightarrow> replace_first BLANK new (u @ BLANK @ rest) = u @ new @ rest"
proof (induction u)
  case Nil
  show ?case by (simp add: BLANK_unfold)
next
  case (Cons x u)
  have "\<not> prefix BLANK ((x # u) @ BLANK @ rest)"
  proof
    assume "prefix BLANK ((x # u) @ BLANK @ rest)"
    then have "prefix BLANK (x # u) \<or> (\<exists>us. BLANK = (x # u) @ us \<and> prefix us (BLANK @ rest))"
      using prefix_append[of BLANK "x # u" "BLANK @ rest"] by blast
    then consider "prefix BLANK (x # u)" | us where "BLANK = (x # u) @ us" "prefix us (BLANK @ rest)"
      by blast
    then show False
    proof cases
      case 1 with Cons.prems show False by (simp add: marker_free_Cons)
    next
      case 2
      show False
      proof (cases "us = []")
        case True
        with 2 have "prefix BLANK (x # u)" by simp
        with Cons.prems(1) show False unfolding marker_free_Cons by blast
      next
        case False
        with 2 no_border[of "x # u" us rest] show False by simp
      qed
    qed
  qed
  with Cons show ?case by (simp add: marker_free_Cons)
qed

lemma rf_none: "marker_free t \<Longrightarrow> replace_first BLANK new t = t"
  by (induction t) (auto simp: marker_free_Cons)

lemma rf_skip_label:
  assumes "marker_free u" "l \<noteq> 123"
  shows "replace_first BLANK new (u @ labeled_blank l @ rest) = u @ labeled_blank l @ replace_first BLANK new rest"
proof -
  have "replace_first BLANK new (u @ 0xFF08 # ([0x3000, 0x3000, l, 0x3000, 0x3000, 0xFF09] @ rest))
        = u @ 0xFF08 # replace_first BLANK new ([0x3000, 0x3000, l, 0x3000, 0x3000, 0xFF09] @ rest)"
    using assms(1) by (intro rf_skip_char) (simp_all add: BLANK_unfold)
  then show ?thesis using assms(2) by (simp add: labeled_blank_def BLANK_unfold)
qed

lemma fill_step:
  "list_all marker_free segs \<Longrightarrow> i + k < 26 \<Longrightarrow>
   replace_first BLANK (labeled_blank (65 + (i + k))) (fill k i segs) = fill (Suc k) i segs"
proof (induction k i segs rule: fill.induct)
  case (1 k i) show ?case by simp
next
  case (2 k i u) then show ?case by (simp add: rf_none)
next
  case (3 k i u v us)
  show ?case
  proof (cases k)
    case 0
    with 3 show ?thesis by (simp add: rf_hit)
  next
    case (Suc k')
    with 3 have "replace_first BLANK (labeled_blank (65 + (Suc i + k'))) (fill k' (Suc i) (v # us))
          = fill (Suc k') (Suc i) (v # us)" by simp
    with 3 Suc show ?thesis by (simp add: rf_skip_label)
  qed
qed

lemma fill_0: "fill 0 i segs = join BLANK segs"
  by (induction segs arbitrary: i rule: induct_list012) simp_all

lemma labels_nth:
  assumes "i < 26"
  shows "labels ! i = 65 + i"
proof -
  have "labels = map (\<lambda>i. 65 + i) [0..<26]" by (simp add: labels_def upt_rec)
  then have "labels ! i = map (\<lambda>i. 65 + i) [0..<26] ! i" by (rule arg_cong)
  also have "\<dots> = 65 + i" using assms by (subst nth_map) simp_all
  finally show ?thesis .
qed

lemma labels_length: "length labels = 26"
  by (simp add: labels_def)

lemma fold_label_step:
  "list_all marker_free segs \<Longrightarrow>
   fold label_step [0..<n] (Some (join BLANK segs)) = Some (fill (min n 26) 0 segs)"
proof (induction n)
  case 0 show ?case by (simp add: fill_0)
next
  case (Suc n)
  show ?case
  proof (cases "n < 26")
    case True
    with Suc fill_step[of segs 0 n] show ?thesis
      by (simp add: label_step_def idx_def labels_length labels_nth min_def)
  next
    case False
    with Suc show ?thesis by (simp add: label_step_def labels_length min_def)
  qed
qed

lemma split_marker_nonempty: "split_marker s \<noteq> []"
  by (subst split_marker.simps) (auto split: list.splits)

lemma join_split_marker: "join BLANK (split_marker s) = s"
proof (induction s rule: split_marker.induct)
  case (1 s)
  show ?case
  proof (cases "prefix BLANK s")
    case True
    then obtain t where t: "s = BLANK @ t" by (auto simp: prefix_def)
    with 1(1) True have "join BLANK (split_marker t) = t" by simp
    moreover obtain a as where "split_marker t = a # as" using split_marker_nonempty[of t] by (cases "split_marker t") auto
    ultimately show ?thesis using True t by (subst split_marker.simps) simp
  next
    case False
    show ?thesis
    proof (cases s)
      case Nil then show ?thesis using False by (subst split_marker.simps) simp
    next
      case (Cons c cs)
      with 1(2) False have ih: "join BLANK (split_marker cs) = cs" by simp
      obtain a as where a: "split_marker cs = a # as" using split_marker_nonempty[of cs] by (cases "split_marker cs") auto
      with ih have "join BLANK ((c # a) # as) = c # cs" by (cases as) simp_all
      with False Cons a show ?thesis by (subst split_marker.simps) simp
    qed
  qed
qed

lemma join_head_prefix: "prefix a (join sep (a # as))"
  by (cases as) simp_all

lemma split_marker_free: "list_all marker_free (split_marker s)"
proof (induction s rule: split_marker.induct)
  case (1 s)
  show ?case
  proof (cases "prefix BLANK s")
    case True
    with 1(1) show ?thesis by (subst split_marker.simps) (simp add: marker_free_Nil)
  next
    case False
    show ?thesis
    proof (cases s)
      case Nil then show ?thesis using False by (subst split_marker.simps) (simp add: marker_free_Nil)
    next
      case (Cons c cs)
      with 1(2) False have ih: "list_all marker_free (split_marker cs)" by simp
      obtain a as where a: "split_marker cs = a # as"
        using split_marker_nonempty[of cs] by (cases "split_marker cs") auto
      have "prefix a cs" using join_head_prefix[of a BLANK as] join_split_marker[of cs] a by simp
      then have "prefix (c # a) s" using Cons by simp
      with False have "\<not> prefix BLANK (c # a)" using prefix_order.trans by blast
      with ih a have "list_all marker_free ((c # a) # as)" by (simp add: marker_free_Cons)
      with False Cons a show ?thesis by (subst split_marker.simps) simp
    qed
  qed
qed

text \<open>
  C10.  For every text and every \<open>blank_count\<close> above 26, \<open>format_blanks\<close> returns the
  text in which the first 26 markers, from the left, are replaced by the labelled blanks
  A to Z and every later marker stays as it is: with the text cut at its markers into
  marker-free segments, the result is these segments joined by the labelled blanks of
  A, ..., Z in the first 26 gaps and by the marker in the others.  The count is not
  clamped, no label is used twice and no error is returned.
\<close>

theorem C10_only_first_26_labeled:
  "26 < n \<Longrightarrow>
   format_blanks text n = Some (fill 26 0 (split_marker text))
   \<and> join BLANK (split_marker text) = text
   \<and> list_all marker_free (split_marker text)"
  using fold_label_step[OF split_marker_free, of n "text"]
  by (simp add: format_blanks_def join_split_marker split_marker_free)

theorem C10_only_first_26_labeled_witness:
  "(26::nat) < 27 \<and>
   format_blanks (concat (replicate 27 (BLANK @ [120]))) 27 =
     Some (concat (map (\<lambda>i. labeled_blank (65 + i) @ [120]) [0..<26]) @ BLANK @ [120])"
proof -
  have s: "split_marker (concat (replicate 27 (BLANK @ [120]))) = [] # replicate 27 [120]"
    by (simp add: split_marker.simps BLANK_unfold numeral_nat)
  show ?thesis
    using C10_only_first_26_labeled[of 27 "concat (replicate 27 (BLANK @ [120]))"]
    unfolding s by (simp add: numeral_nat upt_rec)
qed

section \<open>The loop of the standalone-letter detector ends\<close>

lemma run_standalone:
  "run [R standalone_pattern] b s [] =
     (case s of
        x # l # a # rest \<Rightarrow>
          if accepts before_chars x \<and> up l \<and> accepts after_chars a
          then Some (rest, [(3, [a]), (2, [l]), (1, [x])]) else None
      | _ \<Rightarrow> None)"
  by (simp add: standalone_pattern_def up_def split: list.splits)

lemma sub_from_standalone:
  "sub_from standalone_pattern replace_standalone b s = standalone_pass s"
proof (induction s arbitrary: b rule: standalone_pass.induct)
  case (1 x l a rest)
  then show ?case
    by (subst sub_from.simps) (simp add: run_standalone replace_standalone_def grp_def)
next
  case (2 x l)
  show ?case
    by (subst sub_from.simps, simp add: run_standalone, subst sub_from.simps, simp add: run_standalone,
        subst sub_from.simps, simp add: run_standalone)
next
  case (3 x)
  show ?case
    by (subst sub_from.simps, simp add: run_standalone, subst sub_from.simps, simp add: run_standalone)
next
  case 4
  show ?case by (subst sub_from.simps) (simp add: run_standalone)
qed

lemma re_sub_standalone: "re_sub standalone_pattern replace_standalone s = standalone_pass s"
  by (simp add: re_sub_def sub_from_standalone)

lemma before_not_up: "accepts before_chars x \<Longrightarrow> \<not> up x"
  by (auto simp: before_chars_def jp_items_def up_def)

lemma after_not_up: "accepts after_chars x \<Longrightarrow> \<not> up x"
  by (auto simp: after_chars_def jp_items_def up_def)

lemma rescan_weight_not_up: "\<not> up c \<Longrightarrow> rescan_weight (c # s) = rescan_weight s"
  by (cases s) simp_all

lemma rescan_weight_marker:
  "\<not> up a \<Longrightarrow> rescan_weight (BLANK @ a # s) = rescan_weight s"
  by (cases s) (auto simp: BLANK_def up_def after_chars_def jp_items_def)

lemma standalone_pass_head: "standalone_pass (c # s) = c # tl (standalone_pass (c # s))"
  by (cases "c # s" rule: standalone_pass.cases) auto

lemma rescan_weight_cons_pass:
  "rescan_weight (c # standalone_pass s) - rescan_weight (standalone_pass s)
   = rescan_weight (c # s) - rescan_weight s"
proof (cases s)
  case Nil then show ?thesis by simp
next
  case (Cons d ds)
  obtain r where "standalone_pass (d # ds) = d # r" using standalone_pass_head[of d ds] by blast
  with Cons show ?thesis by simp
qed

lemma rescan_weight_cons_le: "rescan_weight s \<le> rescan_weight (c # s)"
  by (cases s) simp_all

lemma standalone_pass_weight:
  "rescan_weight (standalone_pass s) \<le> rescan_weight s
   \<and> (standalone_pass s \<noteq> s \<longrightarrow> rescan_weight (standalone_pass s) < rescan_weight s)"
proof (induction s rule: standalone_pass.induct)
  case (1 x l a rest)
  show ?case
  proof (cases "accepts before_chars x \<and> up l \<and> accepts after_chars a")
    case True
    then have nx: "\<not> up x" and na: "\<not> up a" by (simp_all add: before_not_up after_not_up)
    from True 1(1) have ih: "rescan_weight (standalone_pass rest) \<le> rescan_weight rest" by simp
    have "rescan_weight (standalone_pass (x # l # a # rest))
          = rescan_weight (standalone_pass rest)"
      using True nx na by (simp add: rescan_weight_not_up rescan_weight_marker)
    moreover have "rescan_weight (x # l # a # rest) = Suc (rescan_weight rest)"
      using True nx na by (simp add: rescan_weight_not_up)
    ultimately show ?thesis using ih by simp
  next
    case False
    define t where "t = l # a # rest"
    have ih: "rescan_weight (standalone_pass t) \<le> rescan_weight t
              \<and> (standalone_pass t \<noteq> t \<longrightarrow> rescan_weight (standalone_pass t) < rescan_weight t)"
      unfolding t_def using 1(2)[OF False] by blast
    have p: "standalone_pass (x # l # a # rest) = x # standalone_pass t"
      using False by (auto simp: t_def)
    have d: "rescan_weight (x # standalone_pass t) - rescan_weight (standalone_pass t)
          = rescan_weight (x # t) - rescan_weight t"
      by (rule rescan_weight_cons_pass)
    have l1: "rescan_weight (standalone_pass t) \<le> rescan_weight (x # standalone_pass t)"
      by (rule rescan_weight_cons_le)
    have l2: "rescan_weight t \<le> rescan_weight (x # t)"
      by (rule rescan_weight_cons_le)
    have r: "rescan_weight (x # standalone_pass t) \<le> rescan_weight (x # t)
             \<and> (x # standalone_pass t \<noteq> x # t \<longrightarrow>
                  rescan_weight (x # standalone_pass t) < rescan_weight (x # t))"
      using ih d l1 l2 by auto
    show ?thesis using r unfolding p t_def .
  qed
qed simp_all

lemma standalone_loop_iterates:
  "\<exists>n. standalone_loop s = Some ((standalone_pass ^^ n) s)
       \<and> standalone_pass ((standalone_pass ^^ n) s) = (standalone_pass ^^ n) s"
proof (induction "rescan_weight s" arbitrary: s rule: less_induct)
  case less
  show ?case
  proof (cases "standalone_pass s = s")
    case True
    then have "standalone_loop s = Some ((standalone_pass ^^ 0) s)"
      by (subst standalone_loop.simps) (simp add: re_sub_standalone)
    with True show ?thesis by (intro exI[of _ 0]) simp
  next
    case False
    then have "rescan_weight (standalone_pass s) < rescan_weight s"
      using standalone_pass_weight[of s] by simp
    from less[OF this] obtain n where
      n: "standalone_loop (standalone_pass s) = Some ((standalone_pass ^^ n) (standalone_pass s))"
         "standalone_pass ((standalone_pass ^^ n) (standalone_pass s)) = (standalone_pass ^^ n) (standalone_pass s)"
      by blast
    have "standalone_loop s = standalone_loop (standalone_pass s)"
      using False by (subst standalone_loop.simps) (simp add: re_sub_standalone)
    with n show ?thesis by (intro exI[of _ "Suc n"]) (simp add: funpow_swap1)
  qed
qed

lemma re_sub_standalone_fun: "re_sub standalone_pattern replace_standalone = standalone_pass"
  by (rule ext) (rule re_sub_standalone)

lemma normalize_standalone_letters_total: "\<exists>r. normalize_standalone_letters ls s = Some r"
proof -
  obtain n where "standalone_loop (re_sub tech_pattern tech_repl
                (fold (\<lambda>letter r. re_sub (protect_pattern letter) (protect_repl letter) r) ls s))
       = Some ((standalone_pass ^^ n) (re_sub tech_pattern tech_repl
                (fold (\<lambda>letter r. re_sub (protect_pattern letter) (protect_repl letter) r) ls s)))"
    using standalone_loop_iterates by blast
  then show ?thesis by (simp add: normalize_standalone_letters_def)
qed

text \<open>
  C9.  For every text the loop of the standalone-letter detector ends: it returns the
  text after some number \<open>n\<close> of substitution passes, and one more pass leaves that text
  as it is.  So \<open>normalize_standalone_letters\<close> returns on every text, in whatever order
  the set of protected letters is gone through.
\<close>

theorem C9_standalone_loop_reaches_fixpoint:
  "(\<exists>n. standalone_loop text = Some ((re_sub standalone_pattern replace_standalone ^^ n) text)
        \<and> re_sub standalone_pattern replace_standalone
             ((re_sub standalone_pattern replace_standalone ^^ n) text)
           = (re_sub standalone_pattern replace_standalone ^^ n) text)
   \<and> (\<exists>r. normalize_standalone_letters ls text = Some r)"
  unfolding re_sub_standalone_fun
  using standalone_loop_iterates normalize_standalone_letters_total by blast

section \<open>The pipeline returns on every input\<close>

lemma normalize_blanks_total: "\<exists>r. normalize_blanks ls s = Some r"
  unfolding normalize_blanks_def by (rule normalize_standalone_letters_total)

lemma label_step_total: "\<exists>r. label_step i (Some t) = Some r"
  by (simp add: label_step_def idx_def)

lemma fold_label_step_total: "\<exists>r. fold label_step xs (Some t) = Some r"
proof (induction xs arbitrary: t)
  case Nil show ?case by simp
next
  case (Cons i xs)
  obtain r where "label_step i (Some t) = Some r" using label_step_total by blast
  with Cons[of r] show ?case by simp
qed

lemma format_blanks_total: "\<exists>r. format_blanks t n = Some r"
  by (simp add: format_blanks_def fold_label_step_total)

lemma parse_line_total: "\<exists>r. parse_line parts line = Some r"
  by (simp add: parse_line_def idx_def split: option.splits)

lemma parse_lines_fold_total:
  "\<exists>r. fold (\<lambda>line acc. case acc of None \<Rightarrow> None | Some parts \<Rightarrow> parse_line parts (strip line))
          lines (Some parts) = Some r"
proof (induction lines arbitrary: parts)
  case Nil show ?case by simp
next
  case (Cons l lines)
  obtain r where "parse_line parts (strip l) = Some r" using parse_line_total by blast
  with Cons[of r] show ?case by simp
qed

lemma parse_lines_total: "\<exists>r. parse_lines lines = Some r"
  unfolding parse_lines_def by (rule parse_lines_fold_total)

lemma format_answer_total: "\<exists>r. format_answer a n = Some r"
proof -
  obtain r where "parse_lines (split_nl (strip (re_sub answer_prefix [] (strip a)))) = Some r"
    using parse_lines_total by blast
  then show ?thesis by (simp add: format_answer_def)
qed

text \<open>
  C3.  For every question text and answer text, and every order of the set of protected
  letters, \<open>format_question\<close> returns normally: no stage raises and the loop ends.  The
  result holds two strings and a \<open>blank_count\<close> that is not negative.
\<close>

theorem C3_format_question_total:
  "\<exists>r. format_question ls question_text answer_text = Some r \<and> 0 \<le> blank_count r"
proof -
  obtain normalized where n: "normalize_blanks ls question_text = Some normalized"
    using normalize_blanks_total by blast
  obtain fmt where f: "format_blanks (clean_text (convert_desu_masu normalized))
                         (count_occ BLANK normalized) = Some fmt"
    using format_blanks_total by blast
  obtain fa where a: "format_answer answer_text (count_occ BLANK normalized) = Some fa"
    using format_answer_total by blast
  show ?thesis by (simp add: format_question_def n f a)
qed

end
